theory Spec2Isabelle
  imports Main "HOL-Library.Word" "HOL-Library.AList"
begin

section \<open>JavaScript strings\<close>

text \<open>
  A JavaScript string is a sequence of UTF-16 code units; \<open>length\<close> counts code units
  and \<open>s.slice(0, i)\<close> with \<open>0 \<le> i\<close> is \<open>take i s\<close>. The literals of the source are
  ASCII, so \<open>js\<close> reads them from a HOL string.
\<close>

type_synonym jsstring = "16 word list"

definition js :: "string \<Rightarrow> jsstring" where
  "js cs = map of_char cs"

text \<open>
  \<open>String.prototype.trim\<close> removes the code units that ECMAScript calls WhiteSpace or
  LineTerminator from both ends: TAB, LF, VT, FF, CR, SP, NBSP, the other space separators
  of Unicode, LS, PS and the byte order mark.
\<close>

definition isWhiteSpace :: "16 word \<Rightarrow> bool" where
  "isWhiteSpace c = (c \<in> set [0x0009, 0x000A, 0x000B, 0x000C, 0x000D, 0x0020, 0x00A0, 0x1680,
      0x2000, 0x2001, 0x2002, 0x2003, 0x2004, 0x2005, 0x2006, 0x2007, 0x2008, 0x2009, 0x200A,
      0x2028, 0x2029, 0x202F, 0x205F, 0x3000, 0xFEFF])"

definition trim :: "jsstring \<Rightarrow> jsstring" where
  "trim s = rev (dropWhile isWhiteSpace (rev (dropWhile isWhiteSpace s)))"

section \<open>ChatManager: the external engine\<close>

text \<open>
  \<open>ChatManager\<close> is supplied from outside the repository; the source uses two of its
  methods and says that nothing else may be assumed. The engine is therefore the record of
  the method calls it has received, in order. What the promise returned by
  \<open>getCharacterResponse\<close> settles to is chosen by the environment: a value of
  \<open>'e settled\<close>, where \<open>'e\<close> is the type of thrown values. \<open>addMessage\<close> returns
  nothing and is taken not to throw. The behaviour description passed to the constructor
  configures the engine and plays no part in the calls.
\<close>

datatype call = AddMessage jsstring jsstring | GetCharacterResponse jsstring

record chatManager =
  calls :: "call list"

datatype 'e settled = Fulfilled jsstring | Rejected 'e

definition addMessage :: "jsstring \<Rightarrow> jsstring \<Rightarrow> chatManager \<Rightarrow> chatManager" where
  "addMessage role text cm = cm\<lparr>calls := calls cm @ [AddMessage role text]\<rparr>"

definition getCharacterResponse :: "jsstring \<Rightarrow> chatManager \<Rightarrow> chatManager" where
  "getCharacterResponse mode cm = cm\<lparr>calls := calls cm @ [GetCharacterResponse mode]\<rparr>"

text \<open>The turns of the history are the messages added, in order; the reply requests are
  the calls of \<open>getCharacterResponse\<close>.\<close>

fun turns :: "call list \<Rightarrow> (jsstring \<times> jsstring) list" where
  "turns [] = []"
| "turns (AddMessage role text # cs) = (role, text) # turns cs"
| "turns (GetCharacterResponse mode # cs) = turns cs"

fun requests :: "call list \<Rightarrow> jsstring list" where
  "requests [] = []"
| "requests (AddMessage role text # cs) = requests cs"
| "requests (GetCharacterResponse mode # cs) = mode # requests cs"

section \<open>ChatAIClass\<close>

record chatAIClass =
  chatManager :: chatManager

definition new_ChatAIClass :: chatAIClass where
  "new_ChatAIClass = \<lparr>chatManager = \<lparr>calls = []\<rparr>\<rparr>"

text \<open>
  \<open>getResponse\<close> is an async function with one \<open>await\<close>. \<open>getResponse_call\<close> is its
  body up to the \<open>await\<close>, which runs synchronously in the caller's turn;
  \<open>getResponse_resume\<close> is the rest, which runs when the awaited promise has settled;
  a rejection is rethrown at the \<open>await\<close> and rejects the promise of \<open>getResponse\<close>
  (\<open>Inl\<close>). \<open>getResponse\<close> is the whole call, given what the promise settles to.
\<close>

definition getResponse_call :: "jsstring \<Rightarrow> chatAIClass \<Rightarrow> chatAIClass" where
  "getResponse_call prompt this =
     this\<lparr>chatManager :=
       getCharacterResponse (js ''classify'') (addMessage (js ''user'') prompt (chatManager this))\<rparr>"

definition getResponse_resume :: "'e settled \<Rightarrow> chatAIClass \<Rightarrow> ('e + jsstring) \<times> chatAIClass" where
  "getResponse_resume settled this =
     (case settled of
        Rejected e \<Rightarrow> (Inl e, this)
      | Fulfilled response \<Rightarrow>
          (Inr response,
           this\<lparr>chatManager := addMessage (js ''assistant'') response (chatManager this)\<rparr>))"

definition getResponse :: "'e settled \<Rightarrow> jsstring \<Rightarrow> chatAIClass \<Rightarrow> ('e + jsstring) \<times> chatAIClass" where
  "getResponse settled prompt this = getResponse_resume settled (getResponse_call prompt this)"

section \<open>The App component\<close>

text \<open>
  The state of the component: the four \<open>useState\<close> variables, the \<open>chatAI\<close> ref, the
  click handlers suspended at their \<open>await\<close> (\<open>pending\<close>), the intervals registered with
  \<open>setInterval\<close> and not cleared (each with the \<open>result\<close> and the counter \<open>i\<close> its
  callback closes over, and its delay), the next interval id, what was written with
  \<open>console.error\<close>, and whether the scene of the effect is still attached.
  React commits the state updates of one event before the next event is dispatched, so a
  handler reads the values of the state as they are when it starts.
\<close>

record timer =
  timer_result :: jsstring
  timer_i :: nat
  timer_delay :: nat

record 'e app =
  prompt :: jsstring
  response :: jsstring
  isLoading :: bool
  displayText :: jsstring
  chatAI :: chatAIClass
  pending :: nat
  timers :: "(nat \<times> timer) list"
  nextId :: nat
  console :: "'e list"
  sceneAttached :: bool

definition App_init :: "'e app" where
  "App_init = \<lparr>prompt = [], response = [], isLoading = False, displayText = [],
     chatAI = new_ChatAIClass, pending = 0, timers = [], nextId = 1, console = [],
     sceneAttached = True\<rparr>"

text \<open>\<open>onChange\<close> of the input.\<close>

definition onChange :: "jsstring \<Rightarrow> 'e app \<Rightarrow> 'e app" where
  "onChange v s = s\<lparr>prompt := v\<rparr>"

text \<open>\<open>onClick\<close> of the button, up to the \<open>await\<close>. The empty string is falsy, so
  \<open>!prompt.trim()\<close> holds when the trimmed prompt is empty.\<close>

definition onClick :: "'e app \<Rightarrow> 'e app" where
  "onClick s =
     (if trim (prompt s) = [] \<or> isLoading s then s
      else s\<lparr>isLoading := True, response := [], displayText := [],
             chatAI := getResponse_call (prompt s) (chatAI s),
             pending := Suc (pending s)\<rparr>)"

text \<open>\<open>setInterval(callback, delay)\<close> registers the callback under a fresh id.\<close>

definition setInterval :: "jsstring \<Rightarrow> nat \<Rightarrow> 'e app \<Rightarrow> 'e app" where
  "setInterval res d s =
     s\<lparr>timers := timers s @ [(nextId s, \<lparr>timer_result = res, timer_i = 0, timer_delay = d\<rparr>)],
       nextId := Suc (nextId s)\<rparr>"

text \<open>The rest of \<open>onClick\<close>, run when the promise of \<open>getResponse\<close> has settled: the
  \<open>try\<close> body after the \<open>await\<close>, or the \<open>catch\<close> block, and then \<open>finally\<close>. Without a
  suspended handler there is nothing to resume.\<close>

definition onClick_resume :: "'e settled \<Rightarrow> 'e app \<Rightarrow> 'e app" where
  "onClick_resume settled s =
     (if pending s = 0 then s
      else
        (case getResponse_resume settled (chatAI s) of
           (Inr res, ai) \<Rightarrow>
             (setInterval res 30 (s\<lparr>chatAI := ai, pending := pending s - 1, response := res\<rparr>))
               \<lparr>isLoading := False\<rparr>
         | (Inl error, ai) \<Rightarrow>
             s\<lparr>chatAI := ai, pending := pending s - 1, console := console s @ [error],
               isLoading := False\<rparr>))"

text \<open>One firing of the interval with id \<open>intervalId\<close>; a cleared interval does not fire.\<close>

definition intervalCallback :: "nat \<Rightarrow> 'e app \<Rightarrow> 'e app" where
  "intervalCallback intervalId s =
     (case map_of (timers s) intervalId of
        None \<Rightarrow> s
      | Some t \<Rightarrow>
          if timer_i t \<le> length (timer_result t)
          then s\<lparr>displayText := take (timer_i t) (timer_result t),
                 timers := AList.update intervalId (t\<lparr>timer_i := Suc (timer_i t)\<rparr>) (timers s)\<rparr>
          else s\<lparr>timers := AList.delete intervalId (timers s)\<rparr>)"

text \<open>The cleanup returned by the effect: it detaches and disposes of the scene.\<close>

definition cleanup :: "'e app \<Rightarrow> 'e app" where
  "cleanup s = s\<lparr>sceneAttached := False\<rparr>"

text \<open>The output region is rendered only while \<open>response\<close> is a non-empty string, and
  then shows \<open>displayText\<close>.\<close>

definition outputRegion :: "'e app \<Rightarrow> jsstring option" where
  "outputRegion s = (if response s = [] then None else Some (displayText s))"

text \<open>The events of the component and runs of events.\<close>

datatype 'e event = Change jsstring | Click | Settle "'e settled" | Tick nat

fun step :: "'e event \<Rightarrow> 'e app \<Rightarrow> 'e app" where
  "step (Change v) s = onChange v s"
| "step Click s = onClick s"
| "step (Settle settled) s = onClick_resume settled s"
| "step (Tick intervalId) s = intervalCallback intervalId s"

fun run :: "'e event list \<Rightarrow> 'e app \<Rightarrow> 'e app" where
  "run [] s = s"
| "run (ev # evs) s = run evs (step ev s)"

text \<open>A run used as an example below: the user types \<open>hi\<close> and clicks, the engine
  replies \<open>hello\<close>, and the interval of the reveal has fired twice, so that the first
  letter of the reply is shown.\<close>

definition reveal_in_progress :: "unit app" where
  "reveal_in_progress =
     run [Change (js ''hi''), Click, Settle (Fulfilled (js ''hello'')), Tick 1, Tick 1] App_init"

section \<open>ChatAIClass.getResponse\<close>

lemma turns_append: "turns (cs @ ds) = turns cs @ turns ds"
  by (induction cs rule: turns.induct) simp_all

lemma requests_append: "requests (cs @ ds) = requests cs @ requests ds"
  by (induction cs rule: requests.induct) simp_all

text \<open>
  C1. When the reply request is fulfilled with the reply \<open>R\<close>, \<open>getResponse(P)\<close> makes
  exactly three calls on the engine, in this order: it adds the user turn \<open>P\<close>, requests one
  reply, adds the assistant turn \<open>R\<close>; and it returns \<open>R\<close>. So the history grows by the user
  turn followed by the assistant turn, and one request is issued.
\<close>

theorem getResponse_fulfilled:
  "getResponse (Fulfilled R) P this =
     (Inr R, this\<lparr>chatManager := (chatManager this)\<lparr>calls := calls (chatManager this) @
        [AddMessage (js ''user'') P, GetCharacterResponse (js ''classify''),
         AddMessage (js ''assistant'') R]\<rparr>\<rparr>)
   \<and> turns (calls (chatManager (snd (getResponse (Fulfilled R) P this)))) =
       turns (calls (chatManager this)) @ [(js ''user'', P), (js ''assistant'', R)]
   \<and> requests (calls (chatManager (snd (getResponse (Fulfilled R) P this)))) =
       requests (calls (chatManager this)) @ [js ''classify'']"
  by (simp add: getResponse_def getResponse_call_def getResponse_resume_def addMessage_def
      getCharacterResponse_def turns_append requests_append)

text \<open>
  C2. When the reply request is rejected with \<open>e\<close>, \<open>getResponse(P)\<close> rejects with the
  same \<open>e\<close>; the engine has received the user turn \<open>P\<close> and one reply request and nothing
  else: no assistant turn is added, the user turn stays, and no second request is made.
\<close>

theorem getResponse_rejected:
  "getResponse (Rejected e) P this =
     (Inl e, this\<lparr>chatManager := (chatManager this)\<lparr>calls := calls (chatManager this) @
        [AddMessage (js ''user'') P, GetCharacterResponse (js ''classify'')]\<rparr>\<rparr>)
   \<and> turns (calls (chatManager (snd (getResponse (Rejected e) P this)))) =
       turns (calls (chatManager this)) @ [(js ''user'', P)]
   \<and> requests (calls (chatManager (snd (getResponse (Rejected e) P this)))) =
       requests (calls (chatManager this)) @ [js ''classify'']"
  by (simp add: getResponse_def getResponse_call_def getResponse_resume_def addMessage_def
      getCharacterResponse_def turns_append requests_append)

lemma getResponse_calls:
  "calls (chatManager (snd (getResponse st P this))) =
     calls (chatManager this) @ [AddMessage (js ''user'') P, GetCharacterResponse (js ''classify'')] @
       (case st of Fulfilled R \<Rightarrow> [AddMessage (js ''assistant'') R] | Rejected e \<Rightarrow> [])"
  by (cases st)
    (simp_all add: getResponse_def getResponse_call_def getResponse_resume_def addMessage_def
      getCharacterResponse_def)

lemma getResponse_fst:
  "fst (getResponse st P this) = (case st of Fulfilled R \<Rightarrow> Inr R | Rejected e \<Rightarrow> Inl e)"
  by (cases st) (simp_all add: getResponse_def getResponse_resume_def)

text \<open>
  C8. However the reply request settles, one call of \<open>getResponse\<close> issues exactly one
  reply request. A second call with the same prompt issues one more request of its own, and
  its result is what that second request settled to, whatever the first call returned:
  nothing is retried and nothing is answered from an earlier reply.
\<close>

theorem getResponse_one_request:
  "requests (calls (chatManager (snd (getResponse st1 P this)))) =
     requests (calls (chatManager this)) @ [js ''classify'']
   \<and> requests (calls (chatManager (snd (getResponse st2 P (snd (getResponse st1 P this)))))) =
     requests (calls (chatManager this)) @ [js ''classify'', js ''classify'']
   \<and> fst (getResponse st2 P (snd (getResponse st1 P this))) =
     (case st2 of Fulfilled R \<Rightarrow> Inr R | Rejected e \<Rightarrow> Inl e)"
  by (cases st1; cases st2) (simp_all add: getResponse_calls getResponse_fst requests_append)

section \<open>The click handler\<close>

text \<open>
  C6. A click with a prompt that is empty after trimming, or while \<open>isLoading\<close> is true,
  leaves the whole state as it was: the engine has received no call, no handler has been
  suspended, and \<open>isLoading\<close>, \<open>response\<close>, \<open>displayText\<close> and \<open>prompt\<close> are unchanged;
  with a blank prompt and \<open>isLoading\<close> false, \<open>isLoading\<close> is still false.
\<close>

theorem onClick_guard_noop:
  assumes "trim (prompt s) = [] \<or> isLoading s"
  shows "onClick s = s
    \<and> calls (chatManager (chatAI (onClick s))) = calls (chatManager (chatAI s))
    \<and> pending (onClick s) = pending s
    \<and> isLoading (onClick s) = isLoading s
    \<and> response (onClick s) = response s
    \<and> displayText (onClick s) = displayText s
    \<and> prompt (onClick s) = prompt s"
  using assms by (auto simp add: onClick_def)

theorem onClick_guard_noop_witness:
  "onClick ((App_init :: unit app)\<lparr>prompt := js ''   ''\<rparr>) = App_init\<lparr>prompt := js ''   ''\<rparr>
   \<and> isLoading (onClick ((App_init :: unit app)\<lparr>prompt := js ''   ''\<rparr>)) = False
   \<and> onClick ((App_init :: unit app)\<lparr>prompt := js ''hi'', isLoading := True\<rparr>) =
       App_init\<lparr>prompt := js ''hi'', isLoading := True\<rparr>"
proof -
  have blank: "trim (prompt ((App_init :: unit app)\<lparr>prompt := js ''   ''\<rparr>)) = []"
    by (simp add: trim_def js_def isWhiteSpace_def)
  have loading: "isLoading ((App_init :: unit app)\<lparr>prompt := js ''hi'', isLoading := True\<rparr>)"
    by simp
  from onClick_guard_noop [of "(App_init :: unit app)\<lparr>prompt := js ''   ''\<rparr>"] blank
  have a: "onClick ((App_init :: unit app)\<lparr>prompt := js ''   ''\<rparr>) = App_init\<lparr>prompt := js ''   ''\<rparr>"
    by blast
  from onClick_guard_noop [of "(App_init :: unit app)\<lparr>prompt := js ''hi'', isLoading := True\<rparr>"] loading
  have b: "onClick ((App_init :: unit app)\<lparr>prompt := js ''hi'', isLoading := True\<rparr>) =
       App_init\<lparr>prompt := js ''hi'', isLoading := True\<rparr>"
    by blast
  show ?thesis
    using a b by (simp add: App_init_def)
qed

text \<open>
  C9. An accepted click passes the prompt to the engine as it is: the guard tests the
  trimmed prompt, and the user turn added carries the untrimmed text.
\<close>

theorem onClick_prompt_verbatim:
  assumes "trim (prompt s) \<noteq> []" and "\<not> isLoading s"
  shows "calls (chatManager (chatAI (onClick s))) =
      calls (chatManager (chatAI s)) @
        [AddMessage (js ''user'') (prompt s), GetCharacterResponse (js ''classify'')]
    \<and> turns (calls (chatManager (chatAI (onClick s)))) =
      turns (calls (chatManager (chatAI s))) @ [(js ''user'', prompt s)]"
  using assms
  by (simp add: onClick_def getResponse_call_def addMessage_def getCharacterResponse_def
      turns_append)

theorem onClick_prompt_verbatim_witness:
  "trim (js ''  hi  '') = js ''hi''
   \<and> turns (calls (chatManager (chatAI (onClick ((App_init :: unit app)\<lparr>prompt := js ''  hi  ''\<rparr>))))) =
       [(js ''user'', js ''  hi  '')]"
proof -
  have t: "trim (js ''  hi  '') = js ''hi''"
    by (simp add: trim_def js_def isWhiteSpace_def)
  have g: "trim (prompt ((App_init :: unit app)\<lparr>prompt := js ''  hi  ''\<rparr>)) \<noteq> []"
    by (simp add: t) (simp add: js_def)
  have l: "\<not> isLoading ((App_init :: unit app)\<lparr>prompt := js ''  hi  ''\<rparr>)"
    by (simp add: App_init_def)
  show ?thesis
    using onClick_prompt_verbatim [OF g l] t
    by (simp add: App_init_def new_ChatAIClass_def)
qed

lemmas handler_defs = onClick_def onClick_resume_def intervalCallback_def onChange_def
  setInterval_def getResponse_call_def getResponse_resume_def addMessage_def
  getCharacterResponse_def

lemmas eval_defs = App_init_def new_ChatAIClass_def js_def trim_def isWhiteSpace_def

lemma reveal_in_progress_eval:
  "reveal_in_progress =
     \<lparr>prompt = js ''hi'', response = js ''hello'', isLoading = False, displayText = js ''h'',
      chatAI = \<lparr>chatManager = \<lparr>calls =
        [AddMessage (js ''user'') (js ''hi''), GetCharacterResponse (js ''classify''),
         AddMessage (js ''assistant'') (js ''hello'')]\<rparr>\<rparr>,
      pending = 0,
      timers = [(1, \<lparr>timer_result = js ''hello'', timer_i = 2, timer_delay = 30\<rparr>)],
      nextId = 2, console = [], sceneAttached = True\<rparr>"
  by (simp add: reveal_in_progress_def handler_defs eval_defs)

section \<open>The submit cycle\<close>

lemma step_prompt: "\<forall>v. ev \<noteq> Change v \<Longrightarrow> prompt (step ev s) = prompt s"
  by (cases ev) (auto simp add: handler_defs split: settled.splits option.splits)

text \<open>
  C10. Only the \<open>onChange\<close> handler of the input writes \<open>prompt\<close>: over any run of
  clicks, settled engine calls and interval firings, \<open>prompt\<close> keeps its value.
\<close>

theorem prompt_unchanged:
  assumes "\<forall>v. Change v \<notin> set evs"
  shows "prompt (run evs s) = prompt s"
  using assms
proof (induction evs arbitrary: s)
  case Nil
  show ?case by simp
next
  case (Cons ev evs)
  from Cons.prems have "\<forall>v. ev \<noteq> Change v" and rest: "\<forall>v. Change v \<notin> set evs"
    by auto
  then have "prompt (step ev s) = prompt s"
    by (simp add: step_prompt)
  with Cons.IH [OF rest] show ?case
    by simp
qed

theorem prompt_unchanged_witness:
  "prompt (run [Click, Settle (Fulfilled (js ''hello'')), Tick 1, Tick 1, Click, Settle (Rejected ())]
     ((App_init :: unit app)\<lparr>prompt := js ''hi''\<rparr>)) = js ''hi''"
  using prompt_unchanged [of "[Click, Settle (Fulfilled (js ''hello'')), Tick 1, Tick 1, Click,
      Settle (Rejected ())]" "(App_init :: unit app)\<lparr>prompt := js ''hi''\<rparr>"]
  by simp

lemma step_loading:
  assumes "isLoading s" and "\<forall>st. ev \<noteq> Settle st"
  shows "isLoading (step ev s) \<and> response (step ev s) = response s
    \<and> chatAI (step ev s) = chatAI s \<and> console (step ev s) = console s
    \<and> pending (step ev s) = pending s
    \<and> (timers s = [] \<longrightarrow> timers (step ev s) = [] \<and> displayText (step ev s) = displayText s)"
  using assms by (cases ev) (auto simp add: handler_defs split: option.splits)

lemma run_loading:
  assumes "isLoading s" and "\<forall>st. Settle st \<notin> set evs"
  shows "isLoading (run evs s) \<and> response (run evs s) = response s
    \<and> chatAI (run evs s) = chatAI s \<and> console (run evs s) = console s
    \<and> pending (run evs s) = pending s
    \<and> (timers s = [] \<longrightarrow> timers (run evs s) = [] \<and> displayText (run evs s) = displayText s)"
  using assms
proof (induction evs arbitrary: s)
  case Nil
  then show ?case by simp
next
  case (Cons ev evs)
  from Cons.prems have ev: "\<forall>st. ev \<noteq> Settle st" and rest: "\<forall>st. Settle st \<notin> set evs"
    by auto
  note one = step_loading [OF Cons.prems(1) ev]
  from one have l: "isLoading (step ev s)" by simp
  from Cons.IH [OF l rest] one show ?case
    by simp
qed

text \<open>
  C7, as the claim states it, fails for \<open>displayText\<close>: an interval of an earlier reveal that
  is still registered writes into it, between the click and the failure or after the
  failure. Here the reveal of \<open>hello\<close> is interrupted by a click whose engine call is
  rejected.
\<close>

theorem engine_failure_counterexample:
  "isLoading (run [Click, Tick 1, Settle (Rejected ())] reveal_in_progress) = False
   \<and> response (run [Click, Tick 1, Settle (Rejected ())] reveal_in_progress) = []
   \<and> displayText (run [Click, Tick 1, Settle (Rejected ())] reveal_in_progress) = js ''he''
   \<and> displayText (run [Click, Settle (Rejected ()), Tick 1] reveal_in_progress) = js ''he''"
  by (intro conjI; code_simp)

text \<open>
  C7, amended. An accepted click whose engine call is rejected: whatever events other than
  the settling of the call come in between (clicks are ignored meanwhile), the handler ends
  with \<open>isLoading\<close> false and \<open>response\<close> still empty, so the output region is not
  rendered; the error has gone to \<open>console.error\<close> and nowhere else; the engine has
  received the user turn and one reply request, and no second request. When no interval of
  an earlier reveal was registered at the click, \<open>displayText\<close> is still empty as well and
  no interval has been started.
\<close>

theorem engine_failure:
  assumes "trim (prompt s) \<noteq> []" and "\<not> isLoading s" and "\<forall>st. Settle st \<notin> set evs"
    and "s' = onClick_resume (Rejected e) (run evs (onClick s))"
  shows "isLoading s' = False \<and> response s' = [] \<and> outputRegion s' = None
    \<and> console s' = console s @ [e]
    \<and> calls (chatManager (chatAI s')) = calls (chatManager (chatAI s)) @
         [AddMessage (js ''user'') (prompt s), GetCharacterResponse (js ''classify'')]
    \<and> pending s' = pending s
    \<and> (timers s = [] \<longrightarrow> displayText s' = [] \<and> timers s' = [])"
proof -
  let ?c = "onClick s"
  have c: "isLoading ?c" "response ?c = []" "displayText ?c = []" "console ?c = console s"
    "pending ?c = Suc (pending s)" "timers ?c = timers s"
    "calls (chatManager (chatAI ?c)) = calls (chatManager (chatAI s)) @
         [AddMessage (js ''user'') (prompt s), GetCharacterResponse (js ''classify'')]"
    using assms(1,2) by (simp_all add: handler_defs)
  note r = run_loading [OF c(1) assms(3)]
  show ?thesis
    using r c by (simp add: assms(4) onClick_resume_def getResponse_resume_def outputRegion_def)
qed

theorem engine_failure_witness:
  "isLoading (onClick_resume (Rejected ()) (run [Click, Tick 1, Change (js ''x'')]
       (onClick (App_init\<lparr>prompt := js ''hi''\<rparr>)))) = False
   \<and> response (onClick_resume (Rejected ()) (run [Click, Tick 1, Change (js ''x'')]
       (onClick (App_init\<lparr>prompt := js ''hi''\<rparr>)))) = []
   \<and> displayText (onClick_resume (Rejected ()) (run [Click, Tick 1, Change (js ''x'')]
       (onClick (App_init\<lparr>prompt := js ''hi''\<rparr>)))) = []
   \<and> console (onClick_resume (Rejected ()) (run [Click, Tick 1, Change (js ''x'')]
       (onClick (App_init\<lparr>prompt := js ''hi''\<rparr>)))) = [()]
   \<and> turns (calls (chatManager (chatAI (onClick_resume (Rejected ()) (run [Click, Tick 1, Change (js ''x'')]
       (onClick (App_init\<lparr>prompt := js ''hi''\<rparr>))))))) = [(js ''user'', js ''hi'')]"
proof -
  let ?s = "(App_init :: unit app)\<lparr>prompt := js ''hi''\<rparr>"
  let ?evs = "[Click, Tick 1, Change (js ''x'')] :: unit event list"
  have g: "trim (prompt ?s) \<noteq> []" by (simp add: eval_defs)
  have l: "\<not> isLoading ?s" by (simp add: eval_defs)
  have n: "\<forall>st. Settle st \<notin> set ?evs" by simp
  have t: "timers ?s = []" by (simp add: eval_defs)
  show ?thesis
    using engine_failure [OF g l n refl, of "()"] t
    by (simp add: eval_defs)
qed

section \<open>Submitting and revealing\<close>

lemma step_pending:
  assumes "pending s = (if isLoading s then 1 else 0)"
  shows "pending (step ev s) = (if isLoading (step ev s) then 1 else 0)"
  using assms
  by (cases ev) (auto simp add: handler_defs split: settled.splits option.splits if_splits)

lemma run_pending:
  assumes "pending s = (if isLoading s then 1 else 0)"
  shows "pending (run evs s) = (if isLoading (run evs s) then 1 else 0)"
  using assms
proof (induction evs arbitrary: s)
  case Nil
  then show ?case by simp
next
  case (Cons ev evs)
  from Cons.IH [OF step_pending [OF Cons.prems]] show ?case
    by simp
qed

lemma reachable_pending:
  "pending (run evs App_init) = (if isLoading (run evs App_init) then 1 else 0)"
  by (rule run_pending) (simp add: App_init_def)

text \<open>
  C3, as the claim states it, fails: \<open>finally\<close> sets \<open>isLoading\<close> to false as soon as the
  interval of the reveal has been registered. In the example one letter of \<open>hello\<close> is
  shown and the interval is registered, yet \<open>isLoading\<close> is false and a click is accepted:
  it sets \<open>isLoading\<close> and sends a new reply request.
\<close>

theorem submit_during_reveal_counterexample:
  "timers reveal_in_progress = [(1, \<lparr>timer_result = js ''hello'', timer_i = 2, timer_delay = 30\<rparr>)]
   \<and> displayText reveal_in_progress = js ''h''
   \<and> response reveal_in_progress = js ''hello''
   \<and> isLoading reveal_in_progress = False
   \<and> onClick reveal_in_progress \<noteq> reveal_in_progress
   \<and> isLoading (onClick reveal_in_progress) = True
   \<and> requests (calls (chatManager (chatAI (onClick reveal_in_progress)))) =
       requests (calls (chatManager (chatAI reveal_in_progress))) @ [js ''classify'']"
  by (intro conjI; code_simp)

text \<open>
  C3, amended. In every state the component can reach: while \<open>isLoading\<close> is true a click
  is ignored; while it is false a click with a prompt that is not blank is accepted, whether
  or not a reveal is running; \<open>isLoading\<close> is true from an accepted click until the engine
  call settles, is set to false by the settling (reply or error) and by no other event, and
  at a reply this is the moment at which the interval of the reveal is registered, with its
  counter at 0.
\<close>

theorem submit_guard_isLoading:
  assumes "s = run evs App_init"
  shows "(isLoading s \<longrightarrow> step Click s = s)
    \<and> (\<not> isLoading s \<and> trim (prompt s) \<noteq> [] \<longrightarrow> isLoading (step Click s))
    \<and> (isLoading s \<longrightarrow> \<not> isLoading (step (Settle st) s))
    \<and> (isLoading s \<and> \<not> isLoading (step ev s) \<longrightarrow> (\<exists>st'. ev = Settle st'))
    \<and> (isLoading s \<longrightarrow> timers (step (Settle (Fulfilled R)) s) =
          timers s @ [(nextId s, \<lparr>timer_result = R, timer_i = 0, timer_delay = 30\<rparr>)])"
proof -
  have p: "pending s = (if isLoading s then 1 else 0)"
    unfolding assms by (rule reachable_pending)
  have a: "isLoading s \<longrightarrow> step Click s = s"
    by (simp add: onClick_def)
  have b: "\<not> isLoading s \<and> trim (prompt s) \<noteq> [] \<longrightarrow> isLoading (step Click s)"
    by (simp add: onClick_def)
  have c: "isLoading s \<longrightarrow> \<not> isLoading (step (Settle st) s)"
    using p by (cases st) (simp_all add: handler_defs)
  have d: "isLoading s \<and> \<not> isLoading (step ev s) \<longrightarrow> (\<exists>st'. ev = Settle st')"
    by (cases ev) (auto simp add: handler_defs split: option.splits)
  have e: "isLoading s \<longrightarrow> timers (step (Settle (Fulfilled R)) s) =
          timers s @ [(nextId s, \<lparr>timer_result = R, timer_i = 0, timer_delay = 30\<rparr>)]"
    using p by (simp add: handler_defs)
  from a b c d e show ?thesis
    by blast
qed

theorem submit_guard_isLoading_witness:
  "isLoading (run [Change (js ''hi''), Click] (App_init :: unit app))
   \<and> step Click (run [Change (js ''hi''), Click] (App_init :: unit app)) =
       run [Change (js ''hi''), Click] App_init
   \<and> \<not> isLoading (step (Settle (Rejected ())) (run [Change (js ''hi''), Click] App_init))
   \<and> timers (step (Settle (Fulfilled (js ''hello''))) (run [Change (js ''hi''), Click] (App_init :: unit app))) =
       [(1, \<lparr>timer_result = js ''hello'', timer_i = 0, timer_delay = 30\<rparr>)]
   \<and> \<not> isLoading reveal_in_progress
   \<and> trim (prompt reveal_in_progress) \<noteq> []
   \<and> isLoading (step Click reveal_in_progress)"
proof -
  let ?s = "run [Change (js ''hi''), Click] (App_init :: unit app)"
  have l: "isLoading ?s"
    by (simp add: handler_defs eval_defs)
  have t: "timers ?s = []" "nextId ?s = 1"
    by (simp_all add: handler_defs eval_defs)
  have r: "\<not> isLoading reveal_in_progress" "trim (prompt reveal_in_progress) \<noteq> []"
    by (simp_all add: reveal_in_progress_eval) (simp add: eval_defs)
  from submit_guard_isLoading [OF refl, of "[Change (js ''hi''), Click]" "Rejected ()" Click "js ''hello''"] l t
  have 1: "step Click ?s = ?s" "\<not> isLoading (step (Settle (Rejected ())) ?s)"
    "timers (step (Settle (Fulfilled (js ''hello''))) ?s) =
       [(1, \<lparr>timer_result = js ''hello'', timer_i = 0, timer_delay = 30\<rparr>)]"
    by simp_all
  from submit_guard_isLoading [OF reveal_in_progress_def, of "Rejected ()" Click "[]"] r
  have 2: "isLoading (step Click reveal_in_progress)"
    by blast
  from l 1 2 r show ?thesis
    by blast
qed

section \<open>Intervals\<close>

text \<open>
  C4, as the claim states it, fails: no handler and no cleanup calls \<open>clearInterval\<close> for
  the interval of an earlier reveal. After a click during the reveal of \<open>hello\<close> the
  display is empty, but the interval is still registered and its next firings show \<open>he\<close>
  and \<open>hel\<close>; the cleanup of the effect leaves it registered as well.
\<close>

theorem resubmit_counterexample:
  "displayText reveal_in_progress = js ''h''
   \<and> displayText (run [Click] reveal_in_progress) = []
   \<and> timers (run [Click] reveal_in_progress) =
       [(1, \<lparr>timer_result = js ''hello'', timer_i = 2, timer_delay = 30\<rparr>)]
   \<and> displayText (run [Click, Tick 1] reveal_in_progress) = js ''he''
   \<and> displayText (run [Click, Tick 1, Tick 1] reveal_in_progress) = js ''hel''
   \<and> timers (cleanup reveal_in_progress) =
       [(1, \<lparr>timer_result = js ''hello'', timer_i = 2, timer_delay = 30\<rparr>)]
   \<and> displayText (intervalCallback 1 (cleanup reveal_in_progress)) = js ''he''"
  by (intro conjI; code_simp)

lemma map_of_step:
  assumes "map_of (timers s) k = Some t" and "map_of (timers (step ev s)) k = None"
  shows "ev = Tick k \<and> length (timer_result t) < timer_i t"
proof (cases ev)
  case (Change v)
  with assms show ?thesis by (simp add: onChange_def)
next
  case Click
  with assms show ?thesis by (simp add: onClick_def split: if_splits)
next
  case (Settle st)
  with assms show ?thesis
    by (cases st) (auto simp add: onClick_resume_def getResponse_resume_def setInterval_def
        split: if_splits)
next
  case (Tick j)
  with assms show ?thesis
    by (auto simp add: intervalCallback_def update_conv delete_conv
        split: option.splits if_splits)
qed

text \<open>
  C4, amended. A click accepted while an interval \<open>k\<close> of an earlier reveal is registered
  sets \<open>response\<close> and \<open>displayText\<close> to the empty string and leaves every interval
  registered, and so does the cleanup of the effect. The next firing of \<open>k\<close> sets
  \<open>displayText\<close> to the next prefix of the earlier reply. An interval is cleared by its own
  callback only, at the firing that finds its counter beyond the length of its reply.
\<close>

theorem resubmit_keeps_timers:
  assumes "trim (prompt s) \<noteq> []" and "\<not> isLoading s" and "map_of (timers s) k = Some t"
  shows "response (onClick s) = [] \<and> displayText (onClick s) = []
    \<and> timers (onClick s) = timers s
    \<and> timers (cleanup s) = timers s
    \<and> (timer_i t \<le> length (timer_result t) \<longrightarrow>
         displayText (intervalCallback k (onClick s)) = take (timer_i t) (timer_result t)
         \<and> map_of (timers (intervalCallback k (onClick s))) k = Some (t\<lparr>timer_i := Suc (timer_i t)\<rparr>))
    \<and> (map_of (timers (step ev s)) k = None \<longrightarrow>
         ev = Tick k \<and> length (timer_result t) < timer_i t)"
proof -
  have c: "response (onClick s) = []" "displayText (onClick s) = []" "timers (onClick s) = timers s"
    using assms(1,2) by (simp_all add: onClick_def)
  have u: "timers (cleanup s) = timers s"
    by (simp add: cleanup_def)
  have f: "timer_i t \<le> length (timer_result t) \<longrightarrow>
         displayText (intervalCallback k (onClick s)) = take (timer_i t) (timer_result t)
         \<and> map_of (timers (intervalCallback k (onClick s))) k = Some (t\<lparr>timer_i := Suc (timer_i t)\<rparr>)"
    using assms(3) c(3) by (simp add: intervalCallback_def update_conv)
  have g: "map_of (timers (step ev s)) k = None \<longrightarrow>
         ev = Tick k \<and> length (timer_result t) < timer_i t"
    using map_of_step [OF assms(3)] by blast
  from c u f g show ?thesis
    by blast
qed

theorem resubmit_keeps_timers_witness:
  "response (onClick reveal_in_progress) = []
   \<and> displayText (onClick reveal_in_progress) = []
   \<and> timers (onClick reveal_in_progress) = timers reveal_in_progress
   \<and> timers (cleanup reveal_in_progress) = timers reveal_in_progress
   \<and> map_of (timers reveal_in_progress) 1 =
       Some \<lparr>timer_result = js ''hello'', timer_i = 2, timer_delay = 30\<rparr>
   \<and> displayText (intervalCallback 1 (onClick reveal_in_progress)) = js ''he''
   \<and> map_of (timers (step (Tick 1) reveal_in_progress)) 1 \<noteq> None"
proof -
  let ?t = "\<lparr>timer_result = js ''hello'', timer_i = 2, timer_delay = 30\<rparr>"
  have g: "trim (prompt reveal_in_progress) \<noteq> []"
    by (simp add: reveal_in_progress_eval) (simp add: eval_defs)
  have l: "\<not> isLoading reveal_in_progress"
    by (simp add: reveal_in_progress_eval)
  have m: "map_of (timers reveal_in_progress) 1 = Some ?t"
    by (simp add: reveal_in_progress_eval)
  have i: "timer_i ?t \<le> length (timer_result ?t)" "\<not> length (timer_result ?t) < timer_i ?t"
    "take (timer_i ?t) (timer_result ?t) = js ''he''"
    by (simp_all add: js_def)
  from resubmit_keeps_timers [OF g l m, of "Tick 1"] i m show ?thesis
    by auto
qed

section \<open>The reveal\<close>

lemma run_append: "run (xs @ ys) s = run ys (run xs s)"
  by (induction xs arbitrary: s) simp_all

lemma ticks_growing:
  assumes "timers s = [(k, \<lparr>timer_result = R, timer_i = j, timer_delay = d\<rparr>)]"
    and "j + n \<le> Suc (length R)"
  shows "run (replicate n (Tick k)) s =
    (if n = 0 then s
     else s\<lparr>displayText := take (j + n - 1) R,
            timers := [(k, \<lparr>timer_result = R, timer_i = j + n, timer_delay = d\<rparr>)]\<rparr>)"
  using assms
proof (induction n arbitrary: s j)
  case 0
  show ?case by simp
next
  case (Suc n)
  let ?s = "s\<lparr>displayText := take j R,
            timers := [(k, \<lparr>timer_result = R, timer_i = Suc j, timer_delay = d\<rparr>)]\<rparr>"
  from Suc.prems have one: "step (Tick k) s = ?s"
    by (simp add: intervalCallback_def)
  have t: "timers ?s = [(k, \<lparr>timer_result = R, timer_i = Suc j, timer_delay = d\<rparr>)]"
    by simp
  from Suc.prems have b: "Suc j + n \<le> Suc (length R)"
    by simp
  from Suc.IH [OF t b] one show ?case
    by simp
qed

lemma ticks_cleared:
  assumes "timers s = []"
  shows "run (replicate n (Tick k)) s = s"
  using assms by (induction n) (simp_all add: intervalCallback_def)

lemma ticks_clearing:
  assumes "timers s = [(k, \<lparr>timer_result = R, timer_i = Suc (length R), timer_delay = d\<rparr>)]"
  shows "run (replicate (Suc m) (Tick k)) s = s\<lparr>timers := []\<rparr>"
proof -
  from assms have "step (Tick k) s = s\<lparr>timers := []\<rparr>"
    by (simp add: intervalCallback_def)
  then show ?thesis
    by (simp add: ticks_cleared)
qed

lemma reveal_ticks:
  assumes "timers s = [(k, \<lparr>timer_result = R, timer_i = 0, timer_delay = d\<rparr>)]"
  shows "run (replicate n (Tick k)) s =
    (if n = 0 then s
     else if n \<le> Suc (length R)
       then s\<lparr>displayText := take (n - 1) R,
              timers := [(k, \<lparr>timer_result = R, timer_i = n, timer_delay = d\<rparr>)]\<rparr>
       else s\<lparr>displayText := R, timers := []\<rparr>)"
proof (cases "n \<le> Suc (length R)")
  case True
  with ticks_growing [OF assms, of n] show ?thesis
    by simp
next
  case False
  then obtain m where n: "n = Suc (length R) + Suc m"
    by (metis add_Suc_right less_imp_Suc_add not_le)
  let ?s = "s\<lparr>displayText := take (length R) R,
      timers := [(k, \<lparr>timer_result = R, timer_i = Suc (length R), timer_delay = d\<rparr>)]\<rparr>"
  from ticks_growing [OF assms, of "Suc (length R)"]
  have g: "run (replicate (Suc (length R)) (Tick k)) s = ?s"
    by simp
  have "run (replicate n (Tick k)) s = run (replicate (Suc m) (Tick k)) ?s"
    unfolding n replicate_add run_append g ..
  also have "\<dots> = ?s\<lparr>timers := []\<rparr>"
    by (rule ticks_clearing) simp
  finally show ?thesis
    using False by simp
qed

text \<open>
  C5, as the claim states it, fails when reveals overlap. The reply \<open>yo\<close> arrives while
  the interval of \<open>hello\<close> is registered: \<open>displayText\<close> then shows \<open>he\<close>, which is no
  prefix of \<open>yo\<close>, reaches \<open>yo\<close>, goes on to \<open>hell\<close>, and stays at \<open>hello\<close> when both
  intervals are cleared, with \<open>response\<close> being \<open>yo\<close>.
\<close>

theorem overlapping_reveals_counterexample:
  "response (run [Click, Settle (Fulfilled (js ''yo''))] reveal_in_progress) = js ''yo''
   \<and> displayText (run [Click, Settle (Fulfilled (js ''yo'')), Tick 2, Tick 1] reveal_in_progress) = js ''he''
   \<and> displayText (run [Click, Settle (Fulfilled (js ''yo'')), Tick 2, Tick 1, Tick 2, Tick 1, Tick 2]
        reveal_in_progress) = js ''yo''
   \<and> displayText (run [Click, Settle (Fulfilled (js ''yo'')), Tick 2, Tick 1, Tick 2, Tick 1, Tick 2,
        Tick 1] reveal_in_progress) = js ''hell''
   \<and> response (run [Click, Settle (Fulfilled (js ''yo'')), Tick 2, Tick 1, Tick 2, Tick 1, Tick 2,
        Tick 1, Tick 2, Tick 1, Tick 1] reveal_in_progress) = js ''yo''
   \<and> displayText (run [Click, Settle (Fulfilled (js ''yo'')), Tick 2, Tick 1, Tick 2, Tick 1, Tick 2,
        Tick 1, Tick 2, Tick 1, Tick 1] reveal_in_progress) = js ''hello''
   \<and> timers (run [Click, Settle (Fulfilled (js ''yo'')), Tick 2, Tick 1, Tick 2, Tick 1, Tick 2,
        Tick 1, Tick 2, Tick 1, Tick 1] reveal_in_progress) = []"
  by (intro conjI; code_simp)

text \<open>
  C5, amended. Let a click be accepted while no interval is registered, and let the engine
  reply \<open>R\<close> of length \<open>N\<close>. The interval registered for the reveal has delay 30 and
  \<open>displayText\<close> is empty. As long as only this interval fires, its firings \<open>1\<close> to
  \<open>N + 1\<close> set \<open>displayText\<close> to the prefixes of \<open>R\<close> of lengths \<open>0\<close> to \<open>N\<close> in this
  order; from firing \<open>N + 1\<close> on \<open>displayText\<close> is \<open>R\<close>; firing \<open>N + 2\<close> clears the
  interval, and nothing is registered afterwards. \<open>response\<close> is \<open>R\<close> throughout, and the
  next click empties \<open>displayText\<close>.
\<close>

theorem reveal_sequence:
  assumes "trim (prompt s) \<noteq> []" and "\<not> isLoading s" and "timers s = []"
    and "s1 = onClick_resume (Fulfilled R) (onClick s)"
  shows "response s1 = R \<and> displayText s1 = [] \<and> isLoading s1 = False
    \<and> timers s1 = [(nextId s, \<lparr>timer_result = R, timer_i = 0, timer_delay = 30\<rparr>)]
    \<and> map (\<lambda>n. displayText (run (replicate n (Tick (nextId s))) s1)) [1..<length R + 2] =
        map (\<lambda>n. take n R) [0..<length R + 1]
    \<and> (\<forall>n. n \<le> length R \<longrightarrow>
          length (displayText (run (replicate (Suc n) (Tick (nextId s))) s1)) = n)
    \<and> (\<forall>n. length R + 1 \<le> n \<longrightarrow>
          displayText (run (replicate n (Tick (nextId s))) s1) = R)
    \<and> (\<forall>n. length R + 2 \<le> n \<longrightarrow>
          timers (run (replicate n (Tick (nextId s))) s1) = [])
    \<and> (\<forall>n. response (run (replicate n (Tick (nextId s))) s1) = R
          \<and> displayText (onClick (run (replicate n (Tick (nextId s))) s1)) = [])"
proof -
  let ?k = "nextId s"
  let ?T = "\<lambda>n. run (replicate n (Tick ?k)) s1"
  have s1: "response s1 = R" "displayText s1 = []" "isLoading s1 = False"
    "timers s1 = [(?k, \<lparr>timer_result = R, timer_i = 0, timer_delay = 30\<rparr>)]"
    "prompt s1 = prompt s"
    using assms(1,2,3) by (simp_all add: assms(4) handler_defs)
  note T = reveal_ticks [OF s1(4)]
  have TS: "displayText (?T (Suc n)) = take n R" if "n \<le> length R" for n
    using that unfolding T by simp
  have seq: "map (\<lambda>n. displayText (?T n)) [1..<length R + 2] = map (\<lambda>n. take n R) [0..<length R + 1]"
  proof -
    have "[1..<length R + 2] = map Suc [0..<length R + 1]"
      by (simp add: map_Suc_upt)
    then have "map (\<lambda>n. displayText (?T n)) [1..<length R + 2] =
        map (\<lambda>n. displayText (?T (Suc n))) [0..<length R + 1]"
      by (simp only: map_map o_def)
    also have "\<dots> = map (\<lambda>n. take n R) [0..<length R + 1]"
    proof (rule map_cong [OF refl])
      fix n
      assume "n \<in> set [0..<length R + 1]"
      then have "n \<le> length R"
        by auto
      then show "displayText (?T (Suc n)) = take n R"
        by (rule TS)
    qed
    finally show ?thesis .
  qed
  have len: "\<forall>n. n \<le> length R \<longrightarrow> length (displayText (?T (Suc n))) = n"
    using TS by (metis length_take min.absorb2)
  have full: "\<forall>n. length R + 1 \<le> n \<longrightarrow> displayText (?T n) = R"
    by (simp add: T)
  have off: "\<forall>n. length R + 2 \<le> n \<longrightarrow> timers (?T n) = []"
    by (simp add: T)
  have nxt: "\<forall>n. response (?T n) = R \<and> displayText (onClick (?T n)) = []"
    using assms(1) s1 by (simp add: T onClick_def)
  from s1 seq len full off nxt show ?thesis
    by blast
qed

theorem reveal_sequence_witness:
  "map (\<lambda>n. displayText (run (replicate n (Tick 1))
       (onClick_resume (Fulfilled (js ''hey'')) (onClick ((App_init :: unit app)\<lparr>prompt := js ''hi''\<rparr>)))))
     [1, 2, 3, 4] = [[], js ''h'', js ''he'', js ''hey'']
   \<and> timers (run (replicate 5 (Tick 1))
       (onClick_resume (Fulfilled (js ''hey'')) (onClick ((App_init :: unit app)\<lparr>prompt := js ''hi''\<rparr>)))) = []
   \<and> displayText (run (replicate 7 (Tick 1))
       (onClick_resume (Fulfilled (js ''hey'')) (onClick ((App_init :: unit app)\<lparr>prompt := js ''hi''\<rparr>)))) = js ''hey''"
proof -
  let ?s = "(App_init :: unit app)\<lparr>prompt := js ''hi''\<rparr>"
  have g: "trim (prompt ?s) \<noteq> []" by (simp add: eval_defs)
  have l: "\<not> isLoading ?s" by (simp add: eval_defs)
  have t: "timers ?s = []" by (simp add: eval_defs)
  have k: "nextId ?s = 1" by (simp add: eval_defs)
  have n: "length (js ''hey'') = 3" by (simp add: js_def)
  note th = reveal_sequence [OF g l t refl, of "js ''hey''", unfolded k n]
  let ?T = "\<lambda>n. run (replicate n (Tick 1)) (onClick_resume (Fulfilled (js ''hey'')) (onClick ?s))"
  from th have a: "map (\<lambda>n. displayText (?T n)) [1..<3 + 2] = map (\<lambda>n. take n (js ''hey'')) [0..<3 + 1]"
    by blast
  have u: "[1..<3 + 2] = [1, 2, 3, 4::nat]" "[0..<3 + 1] = [0, 1, 2, 3::nat]"
    by (simp_all add: upt_rec)
  have p: "map (\<lambda>n. take n (js ''hey'')) [0, 1, 2, 3] = [[], js ''h'', js ''he'', js ''hey'']"
    by (simp add: js_def)
  from th have "\<forall>n. 3 + 2 \<le> n \<longrightarrow> timers (?T n) = []"
    by blast
  then have b: "timers (?T 5) = []"
    by simp
  from th have "\<forall>n. 3 + 1 \<le> n \<longrightarrow> displayText (?T n) = js ''hey''"
    by blast
  then have c: "displayText (?T 7) = js ''hey''"
    by simp
  from a [unfolded u p] b c show ?thesis
    by blast
qed

end
